theory Spec2Isabelle
  imports Main "HOL-Library.AList"
begin

section \<open>Values of the declarative configuration surface\<close>

text \<open>
  The provider handles declarative records as Go values of type
  \<^verbatim>\<open>map[string]interface{}\<close>. An \<^verbatim>\<open>interface{}\<close> value is either a string or a
  list of such values here; a type assertion \<^verbatim>\<open>v.(string)\<close> on anything else (also on the
  nil value that a missing key yields) panics. A panic is kept apart from an error value
  that a function returns.
\<close>

datatype ival = IString string | IList "ival list"

type_synonym rawmap = "string \<rightharpoonup> ival"

datatype error = Err string | Panic string

definition bindE :: "error + 'a \<Rightarrow> ('a \<Rightarrow> error + 'b) \<Rightarrow> error + 'b" where
  "bindE x f = (case x of Inl e \<Rightarrow> Inl e | Inr v \<Rightarrow> f v)"

definition sq :: string where
  "sq = [CHR 0x27]"

definition assertString :: "ival option \<Rightarrow> error + string" where
  "assertString v =
     (case v of
        Some (IString s) \<Rightarrow> Inr s
      | Some (IList xs) \<Rightarrow> Inl (Panic ''interface conversion: interface {} is []interface {}, not string'')
      | None \<Rightarrow> Inl (Panic ''interface conversion: interface {} is nil, not string''))"

section \<open>Remote step variants\<close>

text \<open>
  The client library's step types are not part of the sources; the provider reads the
  fields below from them. \<open>StepOther\<close> stands for any other implementation of the
  library's step interface, with the kind identifier its \<^verbatim>\<open>Type()\<close> method returns.
\<close>

record stepPowershell =
  psName :: string
  ScriptFile :: string
  ScriptArgs :: string
  Code :: string

record stepCommandLine =
  clName :: string
  CommandExecutable :: string
  CommandParameters :: string
  CustomScript :: string

datatype Step =
    StepPowershell stepPowershell
  | StepCommandLine stepCommandLine
  | StepOther string

text \<open>
  Modelled from the spec: the two kind identifiers \<^verbatim>\<open>api.StepTypePowershell\<close> and
  \<^verbatim>\<open>api.StepTypeCommandLine\<close> are constants of the client library, absent from the
  sources. They key one Go map literal, so they are distinct; only that is used.
\<close>

definition StepTypePowershell :: string where
  "StepTypePowershell = ''jetbrains_powershell''"

definition StepTypeCommandLine :: string where
  "StepTypeCommandLine = ''simpleRunner''"

fun stepType :: "Step \<Rightarrow> string" where
  "stepType (StepPowershell s) = StepTypePowershell"
| "stepType (StepCommandLine s) = StepTypeCommandLine"
| "stepType (StepOther k) = k"

definition stepTypeMap :: "string \<rightharpoonup> string" where
  "stepTypeMap = [StepTypePowershell \<mapsto> ''powershell'', StepTypeCommandLine \<mapsto> ''cmd_line'']"

text \<open>A Go map lookup of a missing key yields the zero value, the empty string.\<close>

definition lookupOrZero :: "(string \<rightharpoonup> string) \<Rightarrow> string \<Rightarrow> string" where
  "lookupOrZero m k = (case m k of None \<Rightarrow> [] | Some v \<Rightarrow> v)"

section \<open>Step variant codec: flatten\<close>

definition flattenBuildStepPowershell :: "stepPowershell \<Rightarrow> rawmap" where
  "flattenBuildStepPowershell s =
     (let m0 = Map.empty;
          m1 = (if ScriptFile s \<noteq> []
                then (let mf = m0(''file'' \<mapsto> IString (ScriptFile s))
                      in if ScriptArgs s \<noteq> [] then mf(''args'' \<mapsto> IString (ScriptArgs s)) else mf)
                else m0);
          m2 = (if Code s \<noteq> [] then m1(''code'' \<mapsto> IString (Code s)) else m1);
          m3 = (if psName s \<noteq> [] then m2(''name'' \<mapsto> IString (psName s)) else m2)
      in m3(''type'' \<mapsto> IString ''powershell''))"

definition flattenBuildStepCmdLine :: "stepCommandLine \<Rightarrow> rawmap" where
  "flattenBuildStepCmdLine s =
     (let m0 = Map.empty;
          m1 = (if CommandExecutable s \<noteq> []
                then (let mf = m0(''file'' \<mapsto> IString (CommandExecutable s))
                      in if CommandParameters s \<noteq> []
                         then mf(''args'' \<mapsto> IString (CommandParameters s)) else mf)
                else m0);
          m2 = (if CustomScript s \<noteq> [] then m1(''code'' \<mapsto> IString (CustomScript s)) else m1);
          m3 = (if clName s \<noteq> [] then m2(''name'' \<mapsto> IString (clName s)) else m2)
      in m3(''type'' \<mapsto> IString ''cmd_line''))"

text \<open>
  The type assertions \<^verbatim>\<open>s.(*api.StepPowershell)\<close> and \<^verbatim>\<open>s.(*api.StepCommandLine)\<close>
  panic when the kind identifier maps to a tag whose struct the value is not.
\<close>

definition flattenBuildStep :: "Step \<Rightarrow> error + rawmap" where
  "flattenBuildStep s =
     (let mapType = lookupOrZero stepTypeMap (stepType s)
      in if mapType = ''powershell'' then
           (case s of
              StepPowershell p \<Rightarrow> Inr (flattenBuildStepPowershell p)
            | _ \<Rightarrow> Inl (Panic ''interface conversion: api.Step is not *api.StepPowershell''))
         else if mapType = ''cmd_line'' then
           (case s of
              StepCommandLine c \<Rightarrow> Inr (flattenBuildStepCmdLine c)
            | _ \<Rightarrow> Inl (Panic ''interface conversion: api.Step is not *api.StepCommandLine''))
         else Inl (Err (''Build step type '' @ sq @ stepType s @ sq @ '' not supported'')))"

section \<open>Step variant codec: expand\<close>

text \<open>
  Reading an optional field: \<^verbatim>\<open>if v, ok := dt[k]; ok { x = v.(string) }\<close> leaves the
  zero value when the key is missing and panics on a value that is not a string.
\<close>

definition optString :: "rawmap \<Rightarrow> string \<Rightarrow> error + string" where
  "optString dt k = (case dt k of None \<Rightarrow> Inr [] | Some v \<Rightarrow> assertString (Some v))"

text \<open>
  Modelled from the spec: the four step constructors of the client library are absent from
  the sources. A file-mode variant carries the file path and the arguments, an inline-mode
  variant the code; an empty script body is accepted, not an error.
\<close>

definition NewStepCommandLineExecutable :: "string \<Rightarrow> string \<Rightarrow> string \<Rightarrow> error + Step" where
  "NewStepCommandLineExecutable nm executable args =
     Inr (StepCommandLine \<lparr>clName = nm, CommandExecutable = executable,
                           CommandParameters = args, CustomScript = []\<rparr>)"

definition NewStepCommandLineScript :: "string \<Rightarrow> string \<Rightarrow> error + Step" where
  "NewStepCommandLineScript nm script =
     Inr (StepCommandLine \<lparr>clName = nm, CommandExecutable = [],
                           CommandParameters = [], CustomScript = script\<rparr>)"

definition NewStepPowershellScriptFile :: "string \<Rightarrow> string \<Rightarrow> string \<Rightarrow> error + Step" where
  "NewStepPowershellScriptFile nm scriptFile scriptArgs =
     Inr (StepPowershell \<lparr>psName = nm, ScriptFile = scriptFile,
                          ScriptArgs = scriptArgs, Code = []\<rparr>)"

definition NewStepPowershellCode :: "string \<Rightarrow> string \<Rightarrow> error + Step" where
  "NewStepPowershellCode nm code =
     Inr (StepPowershell \<lparr>psName = nm, ScriptFile = [], ScriptArgs = [], Code = code\<rparr>)"

definition expandStepCmdLine :: "rawmap \<Rightarrow> error + Step" where
  "expandStepCmdLine dt =
     bindE (optString dt ''file'') (\<lambda>file.
     bindE (optString dt ''args'') (\<lambda>args.
     bindE (optString dt ''name'') (\<lambda>nm.
     bindE (optString dt ''code'') (\<lambda>code.
       if file \<noteq> [] then NewStepCommandLineExecutable nm file args
       else NewStepCommandLineScript nm code))))"

definition expandStepPowershell :: "rawmap \<Rightarrow> error + Step" where
  "expandStepPowershell dt =
     bindE (optString dt ''file'') (\<lambda>file.
     bindE (optString dt ''args'') (\<lambda>args.
     bindE (optString dt ''name'') (\<lambda>nm.
     bindE (optString dt ''code'') (\<lambda>code.
       if file \<noteq> [] then NewStepPowershellScriptFile nm file args
       else NewStepPowershellCode nm code))))"

definition expandBuildStep :: "rawmap \<Rightarrow> error + Step" where
  "expandBuildStep localStep =
     (case assertString (localStep ''type'') of
        Inl e \<Rightarrow> Inl e
      | Inr t \<Rightarrow>
          if t = ''powershell'' then expandStepPowershell localStep
          else if t = ''cmd_line'' then expandStepCmdLine localStep
          else Inl (Err (''Unsupported step type '' @ sq @ t @ sq)))"

section \<open>Collection identity hasher\<close>

text \<open>
  The hash functions \<^verbatim>\<open>schema.HashString\<close> and \<^verbatim>\<open>hashcode.String\<close> belong to the schema
  library; they are a parameter \<open>H\<close> of the two fingerprints.
\<close>

definition vcsRootHash :: "(string \<Rightarrow> int) \<Rightarrow> rawmap \<Rightarrow> error + int" where
  "vcsRootHash H raw =
     (case assertString (raw ''id'') of Inl e \<Rightarrow> Inl e | Inr i \<Rightarrow> Inr (H i))"




section \<open>Declarative state\<close>

text \<open>
  The resource data \<^verbatim>\<open>d\<close> of the schema library, as far as the provider touches it: the
  entity ID, one optional field per schema key (\<open>None\<close>: never set), and the bookkeeping
  of \<^verbatim>\<open>MarkNewResource\<close>, \<^verbatim>\<open>Partial\<close> and \<^verbatim>\<open>SetPartial\<close>. A set-valued field holds the
  list that \<^verbatim>\<open>Set.List()\<close> returns. A map-valued field holds the entries of the Go map in
  the order in which \<^verbatim>\<open>range\<close> visits them, which Go leaves open; the keys of a Go map are
  distinct, and its values are strings, as the schema front door delivers them. Writing a
  value of the field's type with \<^verbatim>\<open>d.Set\<close> does not fail.
\<close>

type_synonym strmap = "(string \<times> string) list"

record resourceData =
  Id :: string
  name :: "string option"
  project_id :: "string option"
  description :: "string option"
  vcs_root :: "rawmap list option"
  step :: "rawmap list option"
  env_params :: "strmap option"
  config_params :: "strmap option"
  sys_params :: "strmap option"
  isNew :: bool
  partial :: bool
  partialKeys :: "string list"

text \<open>\<^verbatim>\<open>d.GetOk\<close>: the value, when the field is set and not the zero value of its type.\<close>

definition GetOk :: "'a list option \<Rightarrow> 'a list option" where
  "GetOk f = (case f of None \<Rightarrow> None | Some v \<Rightarrow> if v \<noteq> [] then Some v else None)"


section \<open>Parameter codec\<close>

record parameter =
  paramType :: string
  paramName :: string
  paramValue :: string

text \<open>
  A parameter collection is the list of its \<^verbatim>\<open>Items\<close>; the collection of a remote entity
  is never nil.
\<close>

type_synonym parameters = "parameter list"

text \<open>
  Modelled from the spec: the three kind constants \<^verbatim>\<open>api.ParameterTypes\<close> of the client
  library are absent from the sources; the kinds are a partition, so the constants are
  distinct, and only that is used.
\<close>

definition ptConfiguration :: string where
  "ptConfiguration = ''configuration''"

definition ptSystem :: string where
  "ptSystem = ''system''"

definition ptEnvironmentVariable :: string where
  "ptEnvironmentVariable = ''env''"

text \<open>
  Modelled from the spec: \<^verbatim>\<open>api.NewParameter\<close>, \<^verbatim>\<open>api.NewParametersEmpty\<close>,
  \<^verbatim>\<open>AddOrReplaceParameter\<close> and \<^verbatim>\<open>Concat\<close> of the client library are absent from the
  sources. A parameter is a triple (kind, name, value) with a kind of the partition and a
  name; a collection is an ordered sequence; a merge adds or replaces by (kind, name), the
  last write winning, and leaves the position of a replaced member.
\<close>

definition NewParameter :: "string \<Rightarrow> string \<Rightarrow> string \<Rightarrow> error + parameter" where
  "NewParameter t n v =
     (if n = [] then Inl (Err ''name is required'')
      else if t \<noteq> ptConfiguration \<and> t \<noteq> ptSystem \<and> t \<noteq> ptEnvironmentVariable
      then Inl (Err ''invalid parameter type'')
      else Inr \<lparr>paramType = t, paramName = n, paramValue = v\<rparr>)"

definition NewParametersEmpty :: parameters where
  "NewParametersEmpty = []"

fun AddOrReplaceParameter :: "parameters \<Rightarrow> parameter \<Rightarrow> parameters" where
  "AddOrReplaceParameter [] p = [p]"
| "AddOrReplaceParameter (q # qs) p =
     (if paramType q = paramType p \<and> paramName q = paramName p
      then q\<lparr>paramValue := paramValue p\<rparr> # qs
      else q # AddOrReplaceParameter qs p)"

definition Concat :: "parameters \<Rightarrow> parameters \<Rightarrow> parameters" where
  "Concat out source = foldl AddOrReplaceParameter out source"

text \<open>The loop of \<^verbatim>\<open>expandParameters\<close> over the entries of the map, with the collection built so far.\<close>

fun expandParametersLoop :: "strmap \<Rightarrow> string \<Rightarrow> parameters \<Rightarrow> error + parameters" where
  "expandParametersLoop [] t out = Inr out"
| "expandParametersLoop ((k, v) # rest) t out =
     bindE (NewParameter t k v) (\<lambda>p. expandParametersLoop rest t (AddOrReplaceParameter out p))"

definition expandParameters :: "strmap \<Rightarrow> string \<Rightarrow> error + parameters" where
  "expandParameters raw t = expandParametersLoop raw t NewParametersEmpty"

text \<open>
  One of the three blocks of \<^verbatim>\<open>expandParameterCollection\<close>: the collection of a kind stays
  nil (\<open>None\<close>) unless \<^verbatim>\<open>GetOk\<close> finds the field.
\<close>

definition expandIfSet :: "strmap option \<Rightarrow> string \<Rightarrow> error + parameters option" where
  "expandIfSet f t =
     (case GetOk f of
        None \<Rightarrow> Inr None
      | Some v \<Rightarrow> bindE (expandParameters v t) (\<lambda>p. Inr (Some p)))"

definition concatIfSet :: "parameters \<Rightarrow> parameters option \<Rightarrow> parameters" where
  "concatIfSet out ps = (case ps of None \<Rightarrow> out | Some c \<Rightarrow> Concat out c)"

definition expandParameterCollection :: "resourceData \<Rightarrow> error + parameters" where
  "expandParameterCollection d =
     bindE (expandIfSet (env_params d) ptEnvironmentVariable) (\<lambda>env.
     bindE (expandIfSet (sys_params d) ptSystem) (\<lambda>system.
     bindE (expandIfSet (config_params d) ptConfiguration) (\<lambda>config.
       Inr (concatIfSet (concatIfSet (concatIfSet NewParametersEmpty config) system) env))))"

text \<open>
  The loop of \<^verbatim>\<open>flattenParameters\<close>, with the three maps (config, sys, env) built so far; an
  assignment \<^verbatim>\<open>m[k] = v\<close> replaces the value of a key the map has and adds the key otherwise.
  The switch has no default case.
\<close>

fun flattenParametersLoop ::
  "parameters \<Rightarrow> strmap \<times> strmap \<times> strmap \<Rightarrow> strmap \<times> strmap \<times> strmap" where
  "flattenParametersLoop [] acc = acc"
| "flattenParametersLoop (p # ps) (config, sys, env) =
     flattenParametersLoop ps
       (if paramType p = ptConfiguration
        then (AList.update (paramName p) (paramValue p) config, sys, env)
        else if paramType p = ptEnvironmentVariable
        then (config, sys, AList.update (paramName p) (paramValue p) env)
        else if paramType p = ptSystem
        then (config, AList.update (paramName p) (paramValue p) sys, env)
        else (config, sys, env))"

definition flattenParameters :: "parameters \<Rightarrow> strmap \<times> strmap \<times> strmap" where
  "flattenParameters dt = flattenParametersLoop dt ([], [], [])"

definition flattenParameterCollection :: "resourceData \<Rightarrow> parameters \<Rightarrow> resourceData" where
  "flattenParameterCollection d params =
     (case flattenParameters params of
        (configParams, sysParams, envParams) \<Rightarrow>
          (let d1 = (if envParams \<noteq> [] then d\<lparr>env_params := Some envParams\<rparr> else d);
               d2 = (if sysParams \<noteq> [] then d1\<lparr>sys_params := Some sysParams\<rparr> else d1)
           in if configParams \<noteq> [] then d2\<lparr>config_params := Some configParams\<rparr> else d2))"

section \<open>VCS root attachments\<close>

text \<open>
  Go's \<^verbatim>\<open>strings.Join\<close> and \<^verbatim>\<open>strings.Split\<close>. \<open>stringsIndex\<close> is \<^verbatim>\<open>strings.Index\<close>: the
  position of the first occurrence of the separator, if any. \<^verbatim>\<open>Split\<close> cuts at the
  occurrences from left to right; with an empty separator it cuts after every character.
\<close>

fun stringsJoin :: "string list \<Rightarrow> string \<Rightarrow> string" where
  "stringsJoin [] sep = []"
| "stringsJoin [x] sep = x"
| "stringsJoin (x # y # ys) sep = x @ sep @ stringsJoin (y # ys) sep"

fun stringsIndex :: "string \<Rightarrow> string \<Rightarrow> nat option" where
  "stringsIndex [] sep = (if sep = [] then Some 0 else None)"
| "stringsIndex (c # cs) sep =
     (if take (length sep) (c # cs) = sep then Some 0
      else map_option Suc (stringsIndex cs sep))"

lemma stringsIndex_bound:
  "stringsIndex s sep = Some m \<Longrightarrow> sep \<noteq> [] \<Longrightarrow> s \<noteq> []"
  by (cases s) auto

function stringsSplit :: "string \<Rightarrow> string \<Rightarrow> string list" where
  "stringsSplit s sep =
     (if sep = [] then map (\<lambda>c. [c]) s
      else (case stringsIndex s sep of
              None \<Rightarrow> [s]
            | Some m \<Rightarrow> take m s # stringsSplit (drop (m + length sep) s) sep))"
  by pat_completeness auto
termination
  by (relation "measure (\<lambda>(s, sep). length s)") (auto dest: stringsIndex_bound)

declare stringsSplit.simps [simp del]

text \<open>
  The separator both \<^verbatim>\<open>buildVcsRootEntry\<close> and the Read operation use is the Go string
  literal \<^verbatim>\<open>"\\n"\<close>: the two characters backslash and \<open>n\<close>.
\<close>

definition rulesSeparator :: string where
  "rulesSeparator = [CHR 0x5C, CHR ''n'']"

record vcsRootEntry =
  entryID :: string
  CheckoutRules :: string

text \<open>
  Modelled from the spec: \<^verbatim>\<open>api.NewVcsRootEntryWithRules\<close> of the client library is absent
  from the sources; the entry refers to the root by its ID and carries the rules as one string.
\<close>

definition NewVcsRootEntryWithRules :: "string \<Rightarrow> string \<Rightarrow> vcsRootEntry" where
  "NewVcsRootEntryWithRules refID rules = \<lparr>entryID = refID, CheckoutRules = rules\<rparr>"

definition assertList :: "ival option \<Rightarrow> error + ival list" where
  "assertList v =
     (case v of
        Some (IList xs) \<Rightarrow> Inr xs
      | Some (IString s) \<Rightarrow> Inl (Panic ''interface conversion: interface {} is string, not []interface {}'')
      | None \<Rightarrow> Inl (Panic ''interface conversion: interface {} is nil, not []interface {}''))"

fun assertStrings :: "ival list \<Rightarrow> error + string list" where
  "assertStrings [] = Inr []"
| "assertStrings (el # els) =
     bindE (assertString (Some el)) (\<lambda>s. bindE (assertStrings els) (\<lambda>ss. Inr (s # ss)))"

definition buildVcsRootEntry :: "rawmap \<Rightarrow> error + vcsRootEntry" where
  "buildVcsRootEntry localVcs =
     bindE (assertList (localVcs ''checkout_rules'')) (\<lambda>rawRules.
     bindE (if rawRules \<noteq> []
            then bindE (assertStrings rawRules) (\<lambda>stringRules. Inr (stringsJoin stringRules rulesSeparator))
            else Inr []) (\<lambda>toAttachRules.
     bindE (assertString (localVcs ''id'')) (\<lambda>i.
       Inr (NewVcsRootEntryWithRules i toAttachRules))))"

text \<open>The record that the Read operation builds for one remote VCS root entry.\<close>

definition flattenVcsRootEntry :: "vcsRootEntry \<Rightarrow> rawmap" where
  "flattenVcsRootEntry el =
     [''id'' \<mapsto> IString (entryID el),
      ''checkout_rules'' \<mapsto> IList (map IString (stringsSplit (CheckoutRules el) rulesSeparator))]"

section \<open>The remote system\<close>

text \<open>
  Modelled from the spec: the network client and the remote server are external
  collaborators, absent from the sources. A remote state holds the projects and build
  configurations by ID, a journal of the calls received, and a script of the outcomes of the
  coming calls (\<open>None\<close>: the call goes through, \<open>Some msg\<close>: the call fails with that
  message and changes nothing; an exhausted script lets every call through). The remote
  system assigns the ID of a created entity; a call on an ID it does not hold fails.
\<close>

record buildType =
  btID :: string
  btProjectID :: string
  btName :: string
  btDescription :: string
  btParameters :: parameters
  btVcsRootEntries :: "vcsRootEntry list"
  btSteps :: "Step list"

record project =
  prID :: string
  prName :: string
  prDescription :: string
  prParentProjectID :: string
  prParameters :: parameters

datatype call =
    CallBuildTypesCreate string buildType
  | CallBuildTypesAttachVcsRootEntry string vcsRootEntry
  | CallBuildTypesAddStep string Step
  | CallBuildTypesGetByID string
  | CallBuildTypesGetSteps string
  | CallBuildTypesDelete string
  | CallProjectsCreate project
  | CallProjectsGetByID string
  | CallProjectsUpdate project
  | CallProjectsDelete string

record remote =
  projects :: "string \<rightharpoonup> project"
  buildTypes :: "string \<rightharpoonup> buildType"
  journal :: "call list"
  faults :: "string option list"

definition attempt :: "call \<Rightarrow> remote \<Rightarrow> string option \<times> remote" where
  "attempt c r =
     (case faults r of
        [] \<Rightarrow> (None, r\<lparr>journal := journal r @ [c]\<rparr>)
      | f # fs \<Rightarrow> (f, r\<lparr>journal := journal r @ [c], faults := fs\<rparr>))"



definition notFound :: "string \<Rightarrow> error" where
  "notFound i = Err (''404 not found: '' @ i)"




definition BuildTypes_GetByID :: "string \<Rightarrow> remote \<Rightarrow> (error + buildType) \<times> remote" where
  "BuildTypes_GetByID i r =
     (case attempt (CallBuildTypesGetByID i) r of
        (Some msg, r1) \<Rightarrow> (Inl (Err msg), r1)
      | (None, r1) \<Rightarrow>
          (case buildTypes r1 i of
             None \<Rightarrow> (Inl (notFound i), r1)
           | Some bt \<Rightarrow> (Inr bt, r1)))"

definition BuildTypes_GetSteps :: "string \<Rightarrow> remote \<Rightarrow> (error + Step list) \<times> remote" where
  "BuildTypes_GetSteps i r =
     (case attempt (CallBuildTypesGetSteps i) r of
        (Some msg, r1) \<Rightarrow> (Inl (Err msg), r1)
      | (None, r1) \<Rightarrow>
          (case buildTypes r1 i of
             None \<Rightarrow> (Inl (notFound i), r1)
           | Some bt \<Rightarrow> (Inr (btSteps bt), r1)))"

definition BuildTypes_Delete :: "string \<Rightarrow> remote \<Rightarrow> error option \<times> remote" where
  "BuildTypes_Delete i r =
     (case attempt (CallBuildTypesDelete i) r of
        (Some msg, r1) \<Rightarrow> (Some (Err msg), r1)
      | (None, r1) \<Rightarrow>
          (case buildTypes r1 i of
             None \<Rightarrow> (Some (notFound i), r1)
           | Some bt \<Rightarrow> (None, r1\<lparr>buildTypes := (buildTypes r1)(i := None)\<rparr>)))"




definition Projects_Delete :: "string \<Rightarrow> remote \<Rightarrow> error option \<times> remote" where
  "Projects_Delete i r =
     (case attempt (CallProjectsDelete i) r of
        (Some msg, r1) \<Rightarrow> (Some (Err msg), r1)
      | (None, r1) \<Rightarrow>
          (case projects r1 i of
             None \<Rightarrow> (Some (notFound i), r1)
           | Some p \<Rightarrow> (None, r1\<lparr>projects := (projects r1)(i := None)\<rparr>)))"

section \<open>Entity reconciler: Build Configuration\<close>

text \<open>
  An operation takes the declarative state and the remote state and returns its error, if
  any, with both states as it leaves them.
\<close>

fun flattenStepsLoop :: "Step list \<Rightarrow> rawmap list \<Rightarrow> error + rawmap list" where
  "flattenStepsLoop [] stepsToSave = Inr stepsToSave"
| "flattenStepsLoop (el # rest) stepsToSave =
     bindE (flattenBuildStep el) (\<lambda>l. flattenStepsLoop rest (stepsToSave @ [l]))"

definition resourceBuildConfigurationRead ::
  "resourceData \<Rightarrow> remote \<Rightarrow> error option \<times> resourceData \<times> remote" where
  "resourceBuildConfigurationRead d r =
     (case BuildTypes_GetByID (Id d) r of
        (Inl e, r1) \<Rightarrow> (Some e, d, r1)
      | (Inr dt, r1) \<Rightarrow>
          (let d1 = d\<lparr>name := Some (btName dt)\<rparr>;
               d2 = d1\<lparr>description := Some (btDescription dt)\<rparr>;
               d3 = d2\<lparr>project_id := Some (btProjectID dt)\<rparr>;
               d4 = flattenParameterCollection d3 (btParameters dt);
               vcsRoots = btVcsRootEntries dt;
               d5 = (if vcsRoots \<noteq> []
                     then d4\<lparr>vcs_root := Some (map flattenVcsRootEntry vcsRoots)\<rparr>
                     else d4)
           in (case BuildTypes_GetSteps (Id d5) r1 of
                 (Inl e, r2) \<Rightarrow> (Some e, d5, r2)
               | (Inr steps, r2) \<Rightarrow>
                   if steps \<noteq> []
                   then (case flattenStepsLoop steps [] of
                           Inl e \<Rightarrow> (Some e, d5, r2)
                         | Inr stepsToSave \<Rightarrow> (None, d5\<lparr>step := Some stepsToSave\<rparr>, r2))
                   else (None, d5, r2))))"






definition resourceBuildConfigurationUpdate ::
  "resourceData \<Rightarrow> remote \<Rightarrow> error option \<times> resourceData \<times> remote" where
  "resourceBuildConfigurationUpdate d r = (None, d, r)"

definition resourceBuildConfigurationDelete ::
  "resourceData \<Rightarrow> remote \<Rightarrow> error option \<times> resourceData \<times> remote" where
  "resourceBuildConfigurationDelete d r =
     (case BuildTypes_Delete (Id d) r of (e, r1) \<Rightarrow> (e, d, r1))"

section \<open>Entity reconciler: Project\<close>




definition resourceProjectDelete ::
  "resourceData \<Rightarrow> remote \<Rightarrow> error option \<times> resourceData \<times> remote" where
  "resourceProjectDelete d r =
     (case Projects_Delete (Id d) r of (e, r1) \<Rightarrow> (e, d, r1))"

text \<open>The parts of an operation's result.\<close>

definition errorOf :: "error option \<times> resourceData \<times> remote \<Rightarrow> error option" where
  "errorOf x = fst x"

definition dataOf :: "error option \<times> resourceData \<times> remote \<Rightarrow> resourceData" where
  "dataOf x = fst (snd x)"

definition remoteOf :: "error option \<times> resourceData \<times> remote \<Rightarrow> remote" where
  "remoteOf x = snd (snd x)"

section \<open>Notions of the properties\<close>

subsection \<open>Fingerprint of a build step\<close>





subsection \<open>Parameter collections as maps\<close>

text \<open>A map-valued field holds a Go map: its keys are distinct.\<close>

definition distinctKeys :: "strmap option \<Rightarrow> bool" where
  "distinctKeys f = (case f of None \<Rightarrow> True | Some m \<Rightarrow> distinct (map fst m))"

text \<open>
  A collection is read as a map from (kind, name) to value (\<open>absmap\<close>); the collections
  that expand builds never hold a (kind, name) twice. \<open>setMap\<close> is the map that expand
  finds in a field, and \<open>overlay\<close> the map of a kind that flatten has built when it started
  from the map \<open>m\<close>.
\<close>

definition pkey :: "parameter \<Rightarrow> string \<times> string" where
  "pkey p = (paramType p, paramName p)"

definition absmap :: "parameters \<Rightarrow> (string \<times> string) \<rightharpoonup> string" where
  "absmap ps = map_of (map (\<lambda>p. (pkey p, paramValue p)) ps)"

definition setMap :: "strmap option \<Rightarrow> string \<rightharpoonup> string" where
  "setMap f = (case GetOk f of None \<Rightarrow> Map.empty | Some m \<Rightarrow> map_of m)"

definition overlay :: "parameters \<Rightarrow> string \<Rightarrow> strmap \<Rightarrow> string \<rightharpoonup> string" where
  "overlay ps t m = (\<lambda>n. case absmap ps (t, n) of Some v \<Rightarrow> Some v | None \<Rightarrow> map_of m n)"

subsection \<open>Checkout rules\<close>

text \<open>A rule that does not contain the separator of the checkout rules.\<close>

definition noSeparator :: "string \<Rightarrow> bool" where
  "noSeparator x = (stringsIndex x rulesSeparator = None)"

subsection \<open>States of the reconciler\<close>


text \<open>
  A write that happens only for a value that is not empty: the field keeps \<open>old\<close>
  otherwise.
\<close>

definition writeIf :: "'a list \<Rightarrow> 'a list option \<Rightarrow> 'a list option" where
  "writeIf v old = (if v \<noteq> [] then Some v else old)"

text \<open>The declarative state after the writes of Read that precede the fetch of the steps.\<close>

definition readFields :: "resourceData \<Rightarrow> buildType \<Rightarrow> resourceData" where
  "readFields d dt =
     (flattenParameterCollection
        (d\<lparr>name := Some (btName dt), description := Some (btDescription dt),
           project_id := Some (btProjectID dt)\<rparr>) (btParameters dt))
       \<lparr>vcs_root := writeIf (map flattenVcsRootEntry (btVcsRootEntries dt)) (vcs_root d)\<rparr>"

section \<open>Concrete inputs\<close>

text \<open>A declarative state without any field, and a remote system without any entity.\<close>

definition blankData :: resourceData where
  "blankData =
     \<lparr>Id = [], name = None, project_id = None, description = None, vcs_root = None,
      step = None, env_params = None, config_params = None, sys_params = None,
      isNew = False, partial = False, partialKeys = []\<rparr>"

definition emptyRemote :: remote where
  "emptyRemote = \<lparr>projects = Map.empty, buildTypes = Map.empty, journal = [], faults = []\<rparr>"

text \<open>
  Remote steps that carry both a file path and inline content, a file-mode powershell step
  and an inline-mode command-line step.
\<close>

definition exBothPowershell :: stepPowershell where
  "exBothPowershell =
     \<lparr>psName = [], ScriptFile = ''build.ps1'', ScriptArgs = [], Code = ''Write-Host hi''\<rparr>"

definition exBothCmdLine :: stepCommandLine where
  "exBothCmdLine =
     \<lparr>clName = [], CommandExecutable = ''run.sh'', CommandParameters = [],
      CustomScript = ''echo hi''\<rparr>"

definition exFilePowershell :: stepPowershell where
  "exFilePowershell =
     \<lparr>psName = ''build'', ScriptFile = ''build.ps1'', ScriptArgs = ''-v'', Code = []\<rparr>"

definition exInlineCmdLine :: stepCommandLine where
  "exInlineCmdLine =
     \<lparr>clName = [], CommandExecutable = [], CommandParameters = ''ignored'',
      CustomScript = ''echo hi''\<rparr>"






definition exStepUnsupported :: rawmap where
  "exStepUnsupported = [''type'' \<mapsto> IString ''unsupported_engine'', ''code'' \<mapsto> IString ''x'']"

text \<open>
  VCS root attachments: the two of the spec, with the same root ID and different checkout
  rules; one without rules; one whose rule contains the separator; one with two rules.
\<close>

definition exVcsA :: rawmap where
  "exVcsA = [''id'' \<mapsto> IString ''vcs1'', ''checkout_rules'' \<mapsto> IList [IString ''a'']]"

definition exVcsB :: rawmap where
  "exVcsB = [''id'' \<mapsto> IString ''vcs1'', ''checkout_rules'' \<mapsto> IList [IString ''b'']]"

definition exVcsNoRules :: rawmap where
  "exVcsNoRules = [''id'' \<mapsto> IString ''vcs1'', ''checkout_rules'' \<mapsto> IList []]"

definition exVcsSeparatorInRule :: rawmap where
  "exVcsSeparatorInRule =
     [''id'' \<mapsto> IString ''vcs1'',
      ''checkout_rules'' \<mapsto> IList [IString (''a'' @ rulesSeparator @ ''b'')]]"

definition exVcsTwoRules :: rawmap where
  "exVcsTwoRules =
     [''id'' \<mapsto> IString ''vcs1'',
      ''checkout_rules'' \<mapsto> IList [IString ''+:src'', IString ''-:doc'']]"

text \<open>
  Declarative states with parameter maps: two kinds present and one absent, and a map that
  is present and empty.
\<close>

definition exParamsData :: resourceData where
  "exParamsData =
     blankData\<lparr>env_params := Some [(''A'', ''1''), (''B'', ''2'')],
               config_params := Some [(''A'', ''3'')]\<rparr>"

definition exEmptyEnvData :: resourceData where
  "exEmptyEnvData = blankData\<lparr>env_params := Some [], sys_params := Some [(''A'', ''1'')]\<rparr>"

text \<open>
  The scenario of the spec: a Build Configuration with one VCS root and two steps, and a
  remote system whose fourth call (the second addition of a step) fails.
\<close>

definition exStepOne :: rawmap where
  "exStepOne =
     [''type'' \<mapsto> IString ''cmd_line'', ''name'' \<mapsto> IString ''first'',
      ''file'' \<mapsto> IString ''build.sh'', ''args'' \<mapsto> IString [], ''code'' \<mapsto> IString []]"







text \<open>
  A remote Build Configuration without VCS root entries, steps and parameters, and a
  declarative state that holds some of each.
\<close>

definition exBareBuildType :: buildType where
  "exBareBuildType =
     \<lparr>btID = ''Proj_build'', btProjectID = ''Proj'', btName = ''build'', btDescription = [],
      btParameters = [], btVcsRootEntries = [], btSteps = []\<rparr>"

definition exBareRemote :: remote where
  "exBareRemote = emptyRemote\<lparr>buildTypes := [''Proj_build'' \<mapsto> exBareBuildType]\<rparr>"

definition exStaleData :: resourceData where
  "exStaleData =
     blankData\<lparr>Id := ''Proj_build'', vcs_root := Some [exVcsA], step := Some [exStepOne],
               env_params := Some [(''A'', ''1'')]\<rparr>"

section \<open>Basic facts\<close>

lemma bindE_simps [simp]:
  "bindE (Inl e) f = Inl e"
  "bindE (Inr v) f = f v"
  by (simp_all add: bindE_def)

lemma bindE_Inr_iff: "bindE x f = Inr y \<longleftrightarrow> (\<exists>v. x = Inr v \<and> f v = Inr y)"
  by (cases x) simp_all

lemma assertString_simps [simp]:
  "assertString (Some (IString s)) = Inr s"
  "assertString None = Inl (Panic ''interface conversion: interface {} is nil, not string'')"
  "assertString (Some (IList xs)) =
     Inl (Panic ''interface conversion: interface {} is []interface {}, not string'')"
  by (simp_all add: assertString_def)

section \<open>Step variant codec\<close>

text \<open>
  C1, as the spec states it: the flattened record never holds both a file and a code field.
  It fails on a remote step that carries both a file path and inline content, for the
  powershell variant as for the cmd_line variant: both fields are set.
\<close>

theorem flatten_both_modes_counterexample:
  "flattenBuildStepPowershell exBothPowershell ''file'' = Some (IString ''build.ps1'') \<and>
   flattenBuildStepPowershell exBothPowershell ''code'' = Some (IString ''Write-Host hi'') \<and>
   flattenBuildStepCmdLine exBothCmdLine ''file'' = Some (IString ''run.sh'') \<and>
   flattenBuildStepCmdLine exBothCmdLine ''code'' = Some (IString ''echo hi'')"
  by (simp add: flattenBuildStepPowershell_def flattenBuildStepCmdLine_def
      exBothPowershell_def exBothCmdLine_def)

text \<open>
  C1, amended: for both variants, flatten sets file exactly when the file path is not
  empty, args exactly when the file path and the arguments are not empty, and code exactly
  when the inline content is not empty, whatever the file path is. So a record holds both
  file and code exactly when the remote step carries both.
\<close>

theorem flatten_step_fields:
  "flattenBuildStepPowershell p ''file'' =
     (if ScriptFile p = [] then None else Some (IString (ScriptFile p))) \<and>
   flattenBuildStepPowershell p ''args'' =
     (if ScriptFile p = [] \<or> ScriptArgs p = [] then None else Some (IString (ScriptArgs p))) \<and>
   flattenBuildStepPowershell p ''code'' =
     (if Code p = [] then None else Some (IString (Code p))) \<and>
   flattenBuildStepCmdLine c ''file'' =
     (if CommandExecutable c = [] then None else Some (IString (CommandExecutable c))) \<and>
   flattenBuildStepCmdLine c ''args'' =
     (if CommandExecutable c = [] \<or> CommandParameters c = [] then None
      else Some (IString (CommandParameters c))) \<and>
   flattenBuildStepCmdLine c ''code'' =
     (if CustomScript c = [] then None else Some (IString (CustomScript c)))"
  by (simp add: flattenBuildStepPowershell_def flattenBuildStepCmdLine_def Let_def)

theorem flatten_step_fields_witness:
  "flattenBuildStepPowershell exFilePowershell ''file'' = Some (IString ''build.ps1'') \<and>
   flattenBuildStepPowershell exFilePowershell ''args'' = Some (IString ''-v'') \<and>
   flattenBuildStepPowershell exFilePowershell ''code'' = None \<and>
   flattenBuildStepCmdLine exInlineCmdLine ''file'' = None \<and>
   flattenBuildStepCmdLine exInlineCmdLine ''args'' = None \<and>
   flattenBuildStepCmdLine exInlineCmdLine ''code'' = Some (IString ''echo hi'')"
  using flatten_step_fields [of exFilePowershell exInlineCmdLine]
  by (simp add: exFilePowershell_def exInlineCmdLine_def)

text \<open>
  C6: expanding a declarative step whose engine tag is neither powershell nor cmd_line
  returns an error that carries the tag, and no step; flattening a remote step whose kind
  identifier has no entry in the kind-to-tag mapping returns an error that carries the
  identifier, and no record.
\<close>

theorem unsupported_step_type:
  "(localStep ''type'' = Some (IString t) \<and> t \<noteq> ''powershell'' \<and> t \<noteq> ''cmd_line'' \<longrightarrow>
      expandBuildStep localStep = Inl (Err (''Unsupported step type '' @ sq @ t @ sq))) \<and>
   (stepTypeMap (stepType s) = None \<longrightarrow>
      flattenBuildStep s =
        Inl (Err (''Build step type '' @ sq @ stepType s @ sq @ '' not supported'')))"
  by (simp add: expandBuildStep_def flattenBuildStep_def lookupOrZero_def)

theorem unsupported_step_type_witness:
  "expandBuildStep exStepUnsupported =
     Inl (Err (''Unsupported step type '' @ sq @ ''unsupported_engine'' @ sq)) \<and>
   flattenBuildStep (StepOther ''Maven2'') =
     Inl (Err (''Build step type '' @ sq @ ''Maven2'' @ sq @ '' not supported''))"
proof -
  have a: "exStepUnsupported ''type'' = Some (IString ''unsupported_engine'') \<and>
           ''unsupported_engine'' \<noteq> ''powershell'' \<and> ''unsupported_engine'' \<noteq> ''cmd_line''"
    by (simp add: exStepUnsupported_def)
  have b: "stepTypeMap (stepType (StepOther ''Maven2'')) = None"
    by (simp add: stepTypeMap_def StepTypePowershell_def StepTypeCommandLine_def)
  show ?thesis
    using unsupported_step_type
      [of exStepUnsupported "''unsupported_engine''" "StepOther ''Maven2''"] a b
    by simp
qed

section \<open>Collection identity hasher\<close>






text \<open>
  C5: two VCS root attachments with the same root ID have the same fingerprint, the hash of
  the ID, whatever their checkout rules are.
\<close>

theorem vcsRootHash_id_only:
  assumes "ra ''id'' = Some (IString i)" and "rb ''id'' = Some (IString i)"
  shows "vcsRootHash H ra = Inr (H i) \<and> vcsRootHash H rb = vcsRootHash H ra"
  using assms by (simp add: vcsRootHash_def)

theorem vcsRootHash_id_only_witness:
  "exVcsA ''checkout_rules'' \<noteq> exVcsB ''checkout_rules'' \<and>
   (\<forall>H. vcsRootHash H exVcsA = Inr (H ''vcs1'') \<and> vcsRootHash H exVcsB = vcsRootHash H exVcsA)"
proof -
  have a: "exVcsA ''id'' = Some (IString ''vcs1'')" by (simp add: exVcsA_def)
  have b: "exVcsB ''id'' = Some (IString ''vcs1'')" by (simp add: exVcsB_def)
  have c: "exVcsA ''checkout_rules'' \<noteq> exVcsB ''checkout_rules''"
    by (simp add: exVcsA_def exVcsB_def)
  show ?thesis using vcsRootHash_id_only [of exVcsA "''vcs1''" exVcsB, OF a b] c by simp
qed

section \<open>Parameter codec\<close>

lemma absmap_simps [simp]:
  "absmap [] = Map.empty"
  "absmap (p # ps) = (absmap ps)(pkey p \<mapsto> paramValue p)"
  by (simp_all add: absmap_def)

lemma absmap_None_iff: "absmap ps k = None \<longleftrightarrow> k \<notin> pkey ` set ps"
  by (simp add: absmap_def map_of_eq_None_iff image_image)

lemma map_of_rev_distinct: "distinct (map fst xs) \<Longrightarrow> map_of (rev xs) = map_of xs"
  by (subst map_of_inject_set) (simp_all add: rev_map [symmetric])

lemma addOrReplace_absmap:
  "absmap (AddOrReplaceParameter ps p) = (absmap ps)(pkey p \<mapsto> paramValue p)"
  by (induction ps) (auto simp: pkey_def fun_upd_twist)

lemma addOrReplace_keys:
  "pkey ` set (AddOrReplaceParameter ps p) = insert (pkey p) (pkey ` set ps)"
  by (induction ps) (auto simp: pkey_def)

lemma addOrReplace_distinct:
  "distinct (map pkey ps) \<Longrightarrow> distinct (map pkey (AddOrReplaceParameter ps p))"
proof (induction ps)
  case Nil
  then show ?case by simp
next
  case (Cons q qs)
  have "pkey q \<notin> pkey ` set (AddOrReplaceParameter qs p)" if "pkey q \<noteq> pkey p"
    using that Cons.prems by (simp add: addOrReplace_keys)
  with Cons show ?case by (auto simp: pkey_def)
qed

lemma Concat_absmap:
  "absmap (Concat out src) = absmap out ++ map_of (rev (map (\<lambda>p. (pkey p, paramValue p)) src))"
  unfolding Concat_def
proof (induction src arbitrary: out)
  case Nil
  then show ?case by simp
next
  case (Cons p src)
  show ?case
    by (simp add: Cons.IH addOrReplace_absmap)
      (rule ext, simp add: map_add_def split: option.splits)
qed

lemma Concat_distinct:
  "distinct (map pkey out) \<Longrightarrow> distinct (map pkey (Concat out src))"
  unfolding Concat_def
  by (induction src arbitrary: out) (simp_all add: addOrReplace_distinct)

lemma Concat_absmap_distinct:
  assumes "distinct (map pkey src)"
  shows "absmap (Concat out src) = absmap out ++ absmap src"
proof -
  from assms have "distinct (map fst (map (\<lambda>p. (pkey p, paramValue p)) src))"
    by (simp add: comp_def)
  then have "map_of (rev (map (\<lambda>p. (pkey p, paramValue p)) src)) = absmap src"
    unfolding absmap_def by (rule map_of_rev_distinct)
  then show ?thesis
    by (simp add: Concat_absmap)
qed

lemma NewParameter_Inr:
  "NewParameter t n v = Inr p \<Longrightarrow> p = \<lparr>paramType = t, paramName = n, paramValue = v\<rparr>"
  by (auto simp: NewParameter_def split: if_splits)

lemma expandLoop_sound:
  assumes "expandParametersLoop raw t out = Inr ps" and "distinct (map pkey out)"
  shows "distinct (map pkey ps) \<and>
         absmap ps = absmap out ++ map_of (rev (map (\<lambda>(k, v). ((t, k), v)) raw))"
  using assms
proof (induction raw arbitrary: out)
  case Nil
  then show ?case by simp
next
  case (Cons kv raw)
  obtain k v where kv: "kv = (k, v)" by (cases kv)
  from Cons.prems(1) obtain p where p: "NewParameter t k v = Inr p"
    and rest: "expandParametersLoop raw t (AddOrReplaceParameter out p) = Inr ps"
    by (auto simp: kv bindE_Inr_iff)
  have pk: "pkey p = (t, k)" "paramValue p = v"
    using NewParameter_Inr [OF p] by (simp_all add: pkey_def)
  have "distinct (map pkey (AddOrReplaceParameter out p))"
    using Cons.prems(2) by (rule addOrReplace_distinct)
  from Cons.IH [OF rest this] show ?case
    by (auto simp: kv addOrReplace_absmap pk map_add_def fun_eq_iff split: option.splits)
qed

lemma map_of_kind:
  "map_of (map (\<lambda>(k, v). ((t, k), v)) raw) (t', n) = (if t' = t then map_of raw n else None)"
  by (induction raw) auto

lemma expandParameters_sound:
  assumes "expandParameters raw t = Inr ps" and "distinct (map fst raw)"
  shows "distinct (map pkey ps) \<and> absmap ps (t', n) = (if t' = t then map_of raw n else None)"
proof -
  have d: "distinct (map fst (map (\<lambda>(k, v). ((t, k), v)) raw))"
    using assms(2) by (simp add: comp_def case_prod_unfold distinct_map inj_on_def)
  from assms(1) have "expandParametersLoop raw t [] = Inr ps"
    by (simp add: expandParameters_def NewParametersEmpty_def)
  from expandLoop_sound [OF this] show ?thesis
    by (simp add: map_of_rev_distinct [OF d] map_of_kind)
qed

lemma expandIfSet_sound:
  assumes "expandIfSet f t = Inr r" and "distinctKeys f"
  shows "distinct (map pkey (case r of None \<Rightarrow> [] | Some c \<Rightarrow> c)) \<and>
         absmap (case r of None \<Rightarrow> [] | Some c \<Rightarrow> c) (t', n) =
           (if t' = t then setMap f n else None)"
proof (cases "GetOk f")
  case None
  with assms(1) show ?thesis by (simp add: expandIfSet_def setMap_def)
next
  case (Some m)
  then have fm: "f = Some m" by (auto simp: GetOk_def split: option.splits if_splits)
  with assms(2) have dm: "distinct (map fst m)" by (simp add: distinctKeys_def)
  from assms(1) Some obtain c where c: "expandParameters m t = Inr c" and r: "r = Some c"
    by (auto simp: expandIfSet_def bindE_Inr_iff)
  from expandParameters_sound [OF c dm, of t' n] show ?thesis
    by (simp add: r setMap_def Some)
qed

lemma concatIfSet_Concat:
  "concatIfSet out r = Concat out (case r of None \<Rightarrow> [] | Some c \<Rightarrow> c)"
  by (cases r) (simp_all add: concatIfSet_def Concat_def)

lemma kinds_distinct:
  "ptConfiguration \<noteq> ptSystem" "ptConfiguration \<noteq> ptEnvironmentVariable"
  "ptSystem \<noteq> ptEnvironmentVariable"
  by (simp_all add: ptConfiguration_def ptSystem_def ptEnvironmentVariable_def)

lemma expandParameterCollection_sound:
  assumes "expandParameterCollection d = Inr ps"
    and "distinctKeys (env_params d)" "distinctKeys (sys_params d)" "distinctKeys (config_params d)"
  shows "distinct (map pkey ps) \<and>
         absmap ps (t, n) =
           (if t = ptEnvironmentVariable then setMap (env_params d) n
            else if t = ptSystem then setMap (sys_params d) n
            else if t = ptConfiguration then setMap (config_params d) n
            else None)"
proof -
  from assms(1) obtain env system config where
    e: "expandIfSet (env_params d) ptEnvironmentVariable = Inr env" and
    s: "expandIfSet (sys_params d) ptSystem = Inr system" and
    c: "expandIfSet (config_params d) ptConfiguration = Inr config" and
    ps: "ps = concatIfSet (concatIfSet (concatIfSet NewParametersEmpty config) system) env"
    by (auto simp: expandParameterCollection_def bindE_Inr_iff)
  note E = expandIfSet_sound [OF e assms(2)]
  note S = expandIfSet_sound [OF s assms(3)]
  note C = expandIfSet_sound [OF c assms(4)]
  have dist: "distinct (map pkey ps)"
    by (simp add: ps concatIfSet_Concat Concat_distinct NewParametersEmpty_def)
  have "absmap ps =
      ((absmap [] ++ absmap (case config of None \<Rightarrow> [] | Some c \<Rightarrow> c))
         ++ absmap (case system of None \<Rightarrow> [] | Some c \<Rightarrow> c))
         ++ absmap (case env of None \<Rightarrow> [] | Some c \<Rightarrow> c)"
    using E S C
    by (simp add: ps concatIfSet_Concat Concat_absmap_distinct NewParametersEmpty_def)
  then show ?thesis
    using E [of t n] S [of t n] C [of t n] dist kinds_distinct
    by (auto simp: map_add_def split: option.splits)
qed

lemma overlay_Cons_other:
  "paramType p \<noteq> t \<Longrightarrow> overlay (p # ps) t m = overlay ps t m"
  by (auto simp: overlay_def pkey_def fun_eq_iff)

lemma overlay_Cons_same:
  "absmap ps (pkey p) = None \<Longrightarrow> paramType p = t \<Longrightarrow>
   overlay (p # ps) t m = overlay ps t (AList.update (paramName p) (paramValue p) m)"
  by (auto simp: overlay_def pkey_def fun_eq_iff update_conv' split: option.splits)

lemma flattenLoop_sound:
  assumes "distinct (map pkey ps)"
  shows "map_of (fst (flattenParametersLoop ps (c, s, e))) = overlay ps ptConfiguration c \<and>
         map_of (fst (snd (flattenParametersLoop ps (c, s, e)))) = overlay ps ptSystem s \<and>
         map_of (snd (snd (flattenParametersLoop ps (c, s, e)))) =
           overlay ps ptEnvironmentVariable e"
  using assms
proof (induction ps arbitrary: c s e)
  case Nil
  then show ?case by (simp add: overlay_def)
next
  case (Cons p ps)
  from Cons.prems have fresh: "absmap ps (pkey p) = None" and d: "distinct (map pkey ps)"
    by (simp_all add: absmap_None_iff)
  note IH = Cons.IH [OF d]
  consider (cfg) "paramType p = ptConfiguration" | (env) "paramType p = ptEnvironmentVariable"
    | (sys) "paramType p = ptSystem"
    | (other) "paramType p \<noteq> ptConfiguration" "paramType p \<noteq> ptEnvironmentVariable"
        "paramType p \<noteq> ptSystem"
    by blast
  then show ?case
  proof cases
    case cfg
    then show ?thesis
      using IH [of "AList.update (paramName p) (paramValue p) c" s e] fresh kinds_distinct
      by (simp add: overlay_Cons_other overlay_Cons_same)
  next
    case env
    then show ?thesis
      using IH [of c s "AList.update (paramName p) (paramValue p) e"] fresh kinds_distinct
      by (simp add: overlay_Cons_other overlay_Cons_same)
  next
    case sys
    then show ?thesis
      using IH [of c "AList.update (paramName p) (paramValue p) s" e] fresh kinds_distinct
      by (simp add: overlay_Cons_other overlay_Cons_same)
  next
    case other
    then show ?thesis
      using IH [of c s e] by (simp add: overlay_Cons_other)
  qed
qed

lemma flatten_expand_maps:
  assumes "expandParameterCollection d = Inr ps"
    and "distinctKeys (env_params d)" "distinctKeys (sys_params d)" "distinctKeys (config_params d)"
  shows "map_of (fst (flattenParameters ps)) = setMap (config_params d) \<and>
         map_of (fst (snd (flattenParameters ps))) = setMap (sys_params d) \<and>
         map_of (snd (snd (flattenParameters ps))) = setMap (env_params d)"
proof -
  note X = expandParameterCollection_sound [OF assms]
  then have d: "distinct (map pkey ps)" by simp
  show ?thesis
    using flattenLoop_sound [OF d, of "[]" "[]" "[]"] X kinds_distinct
    by (simp add: flattenParameters_def overlay_def fun_eq_iff split: option.splits)
qed

lemma setMap_written:
  "map_of m = setMap f \<Longrightarrow>
   (if m \<noteq> [] then Some (map_of m) else None) = map_option map_of (GetOk f)"
  by (cases f) (auto simp: setMap_def GetOk_def)

text \<open>
  C2, as the spec states it: flattening what expand produced returns exactly the three
  maps. It fails on a map that is present and empty: expand passes it over as it does an
  absent one, and it comes back absent. The function \<^verbatim>\<open>flattenParameters\<close> itself returns an
  empty map, not an absent one, for a kind without members; the field stays absent because
  \<^verbatim>\<open>flattenParameterCollection\<close> does not write an empty map.
\<close>

theorem parameters_roundtrip_counterexample:
  "env_params exEmptyEnvData = Some [] \<and>
   expandParameterCollection exEmptyEnvData =
     Inr [\<lparr>paramType = ptSystem, paramName = ''A'', paramValue = ''1''\<rparr>] \<and>
   flattenParameters [\<lparr>paramType = ptSystem, paramName = ''A'', paramValue = ''1''\<rparr>] =
     ([], [(''A'', ''1'')], []) \<and>
   env_params (flattenParameterCollection blankData
     [\<lparr>paramType = ptSystem, paramName = ''A'', paramValue = ''1''\<rparr>]) = None \<and>
   sys_params (flattenParameterCollection blankData
     [\<lparr>paramType = ptSystem, paramName = ''A'', paramValue = ''1''\<rparr>]) = Some [(''A'', ''1'')]"
proof -
  have e: "expandParameterCollection exEmptyEnvData =
      Inr [\<lparr>paramType = ptSystem, paramName = ''A'', paramValue = ''1''\<rparr>]"
    by (simp add: exEmptyEnvData_def blankData_def expandParameterCollection_def expandIfSet_def
        GetOk_def expandParameters_def NewParameter_def NewParametersEmpty_def concatIfSet_def
        Concat_def)
  have f: "flattenParameters [\<lparr>paramType = ptSystem, paramName = ''A'', paramValue = ''1''\<rparr>] =
      ([], [(''A'', ''1'')], [])"
    using kinds_distinct by (simp add: flattenParameters_def)
  show ?thesis
    by (simp add: e f flattenParameterCollection_def)
      (simp add: exEmptyEnvData_def blankData_def)
qed

text \<open>
  C2, amended: for all three per-kind maps (each absent, empty or not, with string values)
  whose expansion yields a collection, flattening that collection into a state that has
  none of the three fields returns, for each kind, the map that expand found: the same map
  when it was present and not empty, and an absent field when it was absent or empty. The
  result does not depend on the order in which the entries of the maps were visited.
\<close>

theorem parameters_roundtrip:
  assumes "distinctKeys (env_params d)" and "distinctKeys (sys_params d)"
    and "distinctKeys (config_params d)"
    and "expandParameterCollection d = Inr ps"
    and "env_params d0 = None" and "sys_params d0 = None" and "config_params d0 = None"
  shows "map_option map_of (env_params (flattenParameterCollection d0 ps)) =
           map_option map_of (GetOk (env_params d)) \<and>
         map_option map_of (sys_params (flattenParameterCollection d0 ps)) =
           map_option map_of (GetOk (sys_params d)) \<and>
         map_option map_of (config_params (flattenParameterCollection d0 ps)) =
           map_option map_of (GetOk (config_params d))"
proof -
  note M = flatten_expand_maps [OF assms(4) assms(1-3)]
  obtain c s e where f: "flattenParameters ps = (c, s, e)" by (cases "flattenParameters ps")
  with M have "map_of c = setMap (config_params d)" "map_of s = setMap (sys_params d)"
    "map_of e = setMap (env_params d)" by simp_all
  from setMap_written [OF this(1)] setMap_written [OF this(2)] setMap_written [OF this(3)]
  show ?thesis
    using assms(5-7) by (auto simp: flattenParameterCollection_def f Let_def split: if_splits)
qed

theorem parameters_roundtrip_witness:
  "expandParameterCollection exParamsData =
     Inr [\<lparr>paramType = ptConfiguration, paramName = ''A'', paramValue = ''3''\<rparr>,
          \<lparr>paramType = ptEnvironmentVariable, paramName = ''A'', paramValue = ''1''\<rparr>,
          \<lparr>paramType = ptEnvironmentVariable, paramName = ''B'', paramValue = ''2''\<rparr>] \<and>
   map_option map_of (env_params (flattenParameterCollection blankData
     [\<lparr>paramType = ptConfiguration, paramName = ''A'', paramValue = ''3''\<rparr>,
      \<lparr>paramType = ptEnvironmentVariable, paramName = ''A'', paramValue = ''1''\<rparr>,
      \<lparr>paramType = ptEnvironmentVariable, paramName = ''B'', paramValue = ''2''\<rparr>])) =
     Some (map_of [(''A'', ''1''), (''B'', ''2'')]) \<and>
   sys_params (flattenParameterCollection blankData
     [\<lparr>paramType = ptConfiguration, paramName = ''A'', paramValue = ''3''\<rparr>,
      \<lparr>paramType = ptEnvironmentVariable, paramName = ''A'', paramValue = ''1''\<rparr>,
      \<lparr>paramType = ptEnvironmentVariable, paramName = ''B'', paramValue = ''2''\<rparr>]) = None \<and>
   map_option map_of (config_params (flattenParameterCollection blankData
     [\<lparr>paramType = ptConfiguration, paramName = ''A'', paramValue = ''3''\<rparr>,
      \<lparr>paramType = ptEnvironmentVariable, paramName = ''A'', paramValue = ''1''\<rparr>,
      \<lparr>paramType = ptEnvironmentVariable, paramName = ''B'', paramValue = ''2''\<rparr>])) =
     Some (map_of [(''A'', ''3'')])"
proof -
  have fields: "env_params exParamsData = Some [(''A'', ''1''), (''B'', ''2'')]"
    "sys_params exParamsData = None" "config_params exParamsData = Some [(''A'', ''3'')]"
    by (simp_all add: exParamsData_def blankData_def)
  have dk: "distinctKeys (env_params exParamsData)" "distinctKeys (sys_params exParamsData)"
    "distinctKeys (config_params exParamsData)"
    by (simp_all add: fields distinctKeys_def)
  have e: "expandParameterCollection exParamsData =
      Inr [\<lparr>paramType = ptConfiguration, paramName = ''A'', paramValue = ''3''\<rparr>,
           \<lparr>paramType = ptEnvironmentVariable, paramName = ''A'', paramValue = ''1''\<rparr>,
           \<lparr>paramType = ptEnvironmentVariable, paramName = ''B'', paramValue = ''2''\<rparr>]"
    using kinds_distinct
    by (simp add: fields expandParameterCollection_def expandIfSet_def GetOk_def
        expandParameters_def NewParameter_def NewParametersEmpty_def concatIfSet_def Concat_def)
  have blank: "env_params blankData = None" "sys_params blankData = None"
    "config_params blankData = None"
    by (simp_all add: blankData_def)
  from parameters_roundtrip [OF dk e blank] show ?thesis
    by (simp add: e fields GetOk_def)
qed

section \<open>Checkout rules of a VCS root attachment\<close>

lemma index_at_separator:
  "stringsIndex x rulesSeparator = None \<Longrightarrow>
   stringsIndex (x @ rulesSeparator @ rest) rulesSeparator = Some (length x)"
proof (induction x)
  case Nil
  then show ?case by (simp add: rulesSeparator_def)
next
  case (Cons c cs)
  from Cons.prems have here: "take 2 (c # cs) \<noteq> rulesSeparator"
    and later: "stringsIndex cs rulesSeparator = None"
    by (auto simp: rulesSeparator_def split: if_splits)
  have "take 2 (c # cs @ rulesSeparator @ rest) \<noteq> rulesSeparator"
  proof (cases cs)
    case Nil
    then show ?thesis by (auto simp: rulesSeparator_def)
  next
    case (Cons c' cs')
    with here show ?thesis by (simp add: rulesSeparator_def)
  qed
  then show ?case
    using Cons.IH [OF later] by (simp add: rulesSeparator_def)
qed

lemma split_no_separator:
  "stringsIndex x rulesSeparator = None \<Longrightarrow> stringsSplit x rulesSeparator = [x]"
  by (subst stringsSplit.simps) (simp add: rulesSeparator_def)

lemma split_empty: "stringsSplit [] rulesSeparator = [[]]"
  by (subst stringsSplit.simps) (simp add: rulesSeparator_def)

lemma split_at_separator:
  assumes "stringsIndex x rulesSeparator = None"
  shows "stringsSplit (x @ rulesSeparator @ rest) rulesSeparator =
           x # stringsSplit rest rulesSeparator"
proof -
  have ne: "rulesSeparator \<noteq> []"
    by (simp add: rulesSeparator_def)
  have "drop (length x + length rulesSeparator) (x @ rulesSeparator @ rest) = rest"
    by simp
  then show ?thesis
    using index_at_separator [OF assms, of rest] ne
    by (subst stringsSplit.simps) simp
qed

lemma split_join:
  "rs \<noteq> [] \<Longrightarrow> list_all noSeparator rs \<Longrightarrow>
   stringsSplit (stringsJoin rs rulesSeparator) rulesSeparator = rs"
proof (induction rs rulesSeparator rule: stringsJoin.induct)
  case 1
  then show ?case by simp
next
  case (2 x)
  then show ?case by (simp add: split_no_separator noSeparator_def)
next
  case (3 x y ys)
  then show ?case by (simp add: split_at_separator noSeparator_def)
qed

lemma assertStrings_map: "assertStrings (map IString rs) = Inr rs"
  by (induction rs) simp_all

text \<open>
  C8, as the spec states it: the split on Read inverts the join on attach for every list of
  rules, the empty list included, and the join is by newlines. It fails: an attachment
  without rules is sent with an empty string, which Read splits into a list of one empty
  rule; a rule that contains the separator comes back as two rules; and the separator is the
  two characters backslash and \<open>n\<close>, not a newline.
\<close>

theorem checkout_rules_counterexample:
  "exVcsNoRules ''checkout_rules'' = Some (IList []) \<and>
   buildVcsRootEntry exVcsNoRules = Inr \<lparr>entryID = ''vcs1'', CheckoutRules = []\<rparr> \<and>
   flattenVcsRootEntry \<lparr>entryID = ''vcs1'', CheckoutRules = []\<rparr> ''checkout_rules'' =
     Some (IList [IString []]) \<and>
   buildVcsRootEntry exVcsSeparatorInRule =
     Inr \<lparr>entryID = ''vcs1'', CheckoutRules = ''a'' @ rulesSeparator @ ''b''\<rparr> \<and>
   flattenVcsRootEntry \<lparr>entryID = ''vcs1'', CheckoutRules = ''a'' @ rulesSeparator @ ''b''\<rparr>
       ''checkout_rules'' = Some (IList [IString ''a'', IString ''b'']) \<and>
   buildVcsRootEntry exVcsTwoRules =
     Inr \<lparr>entryID = ''vcs1'', CheckoutRules = ''+:src'' @ [CHR 0x5C, CHR ''n''] @ ''-:doc''\<rparr> \<and>
   ''+:src'' @ [CHR 0x5C, CHR ''n''] @ ''-:doc'' \<noteq> ''+:src'' @ [CHR 0x0A] @ ''-:doc''"
proof -
  have a: "stringsIndex ''a'' rulesSeparator = None" "stringsIndex ''b'' rulesSeparator = None"
    by (simp_all add: rulesSeparator_def)
  have "stringsSplit (''a'' @ rulesSeparator @ ''b'') rulesSeparator = [''a'', ''b'']"
    by (simp only: split_at_separator [OF a(1)] split_no_separator [OF a(2)])
  then have f:
    "flattenVcsRootEntry \<lparr>entryID = ''vcs1'', CheckoutRules = ''a'' @ rulesSeparator @ ''b''\<rparr>
       ''checkout_rules'' = Some (IList [IString ''a'', IString ''b''])"
    by (simp add: flattenVcsRootEntry_def)
  have g: "flattenVcsRootEntry \<lparr>entryID = ''vcs1'', CheckoutRules = []\<rparr> ''checkout_rules'' =
      Some (IList [IString []])"
    by (simp add: flattenVcsRootEntry_def split_empty)
  have b: "buildVcsRootEntry exVcsNoRules = Inr \<lparr>entryID = ''vcs1'', CheckoutRules = []\<rparr>"
    "buildVcsRootEntry exVcsSeparatorInRule =
       Inr \<lparr>entryID = ''vcs1'', CheckoutRules = ''a'' @ rulesSeparator @ ''b''\<rparr>"
    "buildVcsRootEntry exVcsTwoRules =
       Inr \<lparr>entryID = ''vcs1'', CheckoutRules = ''+:src'' @ [CHR 0x5C, CHR ''n''] @ ''-:doc''\<rparr>"
    by (simp_all add: exVcsNoRules_def exVcsSeparatorInRule_def exVcsTwoRules_def
        buildVcsRootEntry_def assertList_def NewVcsRootEntryWithRules_def rulesSeparator_def)
  have c: "exVcsNoRules ''checkout_rules'' = Some (IList [])"
    by (simp add: exVcsNoRules_def)
  show ?thesis
    by (simp only: b c f g simp_thms) simp
qed

text \<open>
  C8, amended: for every list of checkout rules that is not empty and none of whose rules
  contains the separator (the two characters backslash and \<open>n\<close>), attaching sends the rules
  joined by the separator as one string, and the record that Read builds from the entry
  holds the original list of rules and the root ID.
\<close>

theorem checkout_rules_roundtrip:
  assumes "rs \<noteq> []" and "list_all noSeparator rs"
    and "localVcs ''id'' = Some (IString i)"
    and "localVcs ''checkout_rules'' = Some (IList (map IString rs))"
  shows "buildVcsRootEntry localVcs =
           Inr \<lparr>entryID = i, CheckoutRules = stringsJoin rs rulesSeparator\<rparr> \<and>
         flattenVcsRootEntry \<lparr>entryID = i, CheckoutRules = stringsJoin rs rulesSeparator\<rparr>
             ''checkout_rules'' = Some (IList (map IString rs)) \<and>
         flattenVcsRootEntry \<lparr>entryID = i, CheckoutRules = stringsJoin rs rulesSeparator\<rparr>
             ''id'' = Some (IString i)"
  using assms
  by (simp add: buildVcsRootEntry_def assertList_def assertStrings_map
      NewVcsRootEntryWithRules_def flattenVcsRootEntry_def split_join)

theorem checkout_rules_roundtrip_witness:
  "buildVcsRootEntry exVcsTwoRules =
     Inr \<lparr>entryID = ''vcs1'', CheckoutRules = stringsJoin [''+:src'', ''-:doc''] rulesSeparator\<rparr> \<and>
   flattenVcsRootEntry
       \<lparr>entryID = ''vcs1'', CheckoutRules = stringsJoin [''+:src'', ''-:doc''] rulesSeparator\<rparr>
       ''checkout_rules'' = exVcsTwoRules ''checkout_rules''"
proof -
  have ne: "[''+:src'', ''-:doc''] \<noteq> []" by simp
  have ns: "list_all noSeparator [''+:src'', ''-:doc'']"
    by (simp add: noSeparator_def rulesSeparator_def)
  have i: "exVcsTwoRules ''id'' = Some (IString ''vcs1'')"
    by (simp add: exVcsTwoRules_def)
  have c: "exVcsTwoRules ''checkout_rules'' = Some (IList (map IString [''+:src'', ''-:doc'']))"
    by (simp add: exVcsTwoRules_def)
  from checkout_rules_roundtrip [of "[''+:src'', ''-:doc'']" exVcsTwoRules "''vcs1''", OF ne ns i c]
  show ?thesis by (simp add: c)
qed

section \<open>Entity reconciler\<close>

text \<open>
  C7: the Update operation on a Build Configuration returns success, performs no call on
  the remote system (the journal is as it was) and leaves the declarative state and the
  remote state as they were.
\<close>

theorem update_is_noop:
  "errorOf (resourceBuildConfigurationUpdate d r) = None \<and>
   dataOf (resourceBuildConfigurationUpdate d r) = d \<and>
   remoteOf (resourceBuildConfigurationUpdate d r) = r \<and>
   journal (remoteOf (resourceBuildConfigurationUpdate d r)) = journal r"
  by (simp add: resourceBuildConfigurationUpdate_def errorOf_def dataOf_def remoteOf_def)

theorem update_is_noop_witness:
  "errorOf (resourceBuildConfigurationUpdate exStaleData exBareRemote) = None \<and>
   dataOf (resourceBuildConfigurationUpdate exStaleData exBareRemote) = exStaleData \<and>
   remoteOf (resourceBuildConfigurationUpdate exStaleData exBareRemote) = exBareRemote"
  using update_is_noop [of exStaleData exBareRemote] by simp

subsection \<open>The calls of Create on the remote system\<close>



















subsection \<open>What Read writes\<close>

lemma flattenParameterCollection_updates:
  "flattenParameterCollection d ps =
     d\<lparr>env_params := writeIf (snd (snd (flattenParameters ps))) (env_params d),
       sys_params := writeIf (fst (snd (flattenParameters ps))) (sys_params d),
       config_params := writeIf (fst (flattenParameters ps)) (config_params d)\<rparr>"
  by (cases "flattenParameters ps") (simp add: flattenParameterCollection_def writeIf_def Let_def)

lemma readFields_updates:
  "readFields d dt =
     d\<lparr>name := Some (btName dt), description := Some (btDescription dt),
       project_id := Some (btProjectID dt),
       env_params := writeIf (snd (snd (flattenParameters (btParameters dt)))) (env_params d),
       sys_params := writeIf (fst (snd (flattenParameters (btParameters dt)))) (sys_params d),
       config_params := writeIf (fst (flattenParameters (btParameters dt))) (config_params d),
       vcs_root := writeIf (map flattenVcsRootEntry (btVcsRootEntries dt)) (vcs_root d)\<rparr>"
  by (simp add: readFields_def flattenParameterCollection_updates)

lemma writeIf_idem [simp]: "writeIf v (writeIf v old) = writeIf v old"
  by (simp add: writeIf_def)



lemma readFields_Id [simp]: "Id (readFields d dt) = Id d"
  by (simp add: readFields_updates)

lemma Read_unfold:
  "resourceBuildConfigurationRead d r =
     (case BuildTypes_GetByID (Id d) r of
        (Inl e, r1) \<Rightarrow> (Some e, d, r1)
      | (Inr dt, r1) \<Rightarrow>
          (case BuildTypes_GetSteps (Id d) r1 of
             (Inl e, r2) \<Rightarrow> (Some e, readFields d dt, r2)
           | (Inr steps, r2) \<Rightarrow>
               if steps \<noteq> []
               then (case flattenStepsLoop steps [] of
                       Inl e \<Rightarrow> (Some e, readFields d dt, r2)
                     | Inr fl \<Rightarrow> (None, (readFields d dt)\<lparr>step := Some fl\<rparr>, r2))
               else (None, readFields d dt, r2)))"
proof -
  have d5: "(if btVcsRootEntries dt \<noteq> []
        then (flattenParameterCollection
               (d\<lparr>name := Some (btName dt), description := Some (btDescription dt),
                  project_id := Some (btProjectID dt)\<rparr>) (btParameters dt))
             \<lparr>vcs_root := Some (map flattenVcsRootEntry (btVcsRootEntries dt))\<rparr>
        else flattenParameterCollection
               (d\<lparr>name := Some (btName dt), description := Some (btDescription dt),
                  project_id := Some (btProjectID dt)\<rparr>) (btParameters dt)) = readFields d dt"
    for dt
    by (simp add: readFields_def writeIf_def flattenParameterCollection_updates)
  show ?thesis
    unfolding resourceBuildConfigurationRead_def Let_def d5
    by (simp split: prod.splits sum.splits)
qed

lemma Read_cases:
  assumes "resourceBuildConfigurationRead d r = (res, d', r')"
  obtains (fetch_failed) e where "BuildTypes_GetByID (Id d) r = (Inl e, r')" "res = Some e" "d' = d"
  | (steps_failed) dt r1 e where "BuildTypes_GetByID (Id d) r = (Inr dt, r1)"
      "BuildTypes_GetSteps (Id d) r1 = (Inl e, r')" "res = Some e" "d' = readFields d dt"
  | (no_steps) dt r1 where "BuildTypes_GetByID (Id d) r = (Inr dt, r1)"
      "BuildTypes_GetSteps (Id d) r1 = (Inr [], r')" "res = None" "d' = readFields d dt"
  | (flatten_failed) dt r1 steps e where "BuildTypes_GetByID (Id d) r = (Inr dt, r1)"
      "BuildTypes_GetSteps (Id d) r1 = (Inr steps, r')" "steps \<noteq> []"
      "flattenStepsLoop steps [] = Inl e" "res = Some e" "d' = readFields d dt"
  | (steps_written) dt r1 steps fl where "BuildTypes_GetByID (Id d) r = (Inr dt, r1)"
      "BuildTypes_GetSteps (Id d) r1 = (Inr steps, r')" "steps \<noteq> []"
      "flattenStepsLoop steps [] = Inr fl" "res = None" "d' = (readFields d dt)\<lparr>step := Some fl\<rparr>"
  using assms unfolding Read_unfold
  by (auto split: prod.splits sum.splits if_splits)


lemma GetByID_result:
  "BuildTypes_GetByID i r = (res, r1) \<Longrightarrow>
   buildTypes r1 = buildTypes r \<and> projects r1 = projects r \<and>
   journal r1 = journal r @ [CallBuildTypesGetByID i] \<and> faults r1 = tl (faults r) \<and>
   (\<forall>dt. res = Inr dt \<longrightarrow> buildTypes r i = Some dt)"
  by (auto simp: BuildTypes_GetByID_def attempt_def split: list.splits option.splits)

lemma GetSteps_result:
  "BuildTypes_GetSteps i r = (res, r1) \<Longrightarrow>
   buildTypes r1 = buildTypes r \<and> projects r1 = projects r \<and>
   journal r1 = journal r @ [CallBuildTypesGetSteps i] \<and> faults r1 = tl (faults r) \<and>
   (\<forall>steps. res = Inr steps \<longrightarrow> (\<exists>bt. buildTypes r i = Some bt \<and> steps = btSteps bt))"
  by (auto simp: BuildTypes_GetSteps_def attempt_def split: list.splits option.splits)




lemma flattenStepsLoop_Inr:
  "flattenStepsLoop steps acc = Inr out \<Longrightarrow>
   \<exists>fl. out = acc @ fl \<and> map flattenBuildStep steps = map Inr fl"
proof (induction steps arbitrary: acc)
  case Nil
  then show ?case by simp
next
  case (Cons s steps)
  from Cons.prems obtain l where l: "flattenBuildStep s = Inr l"
    and rest: "flattenStepsLoop steps (acc @ [l]) = Inr out"
    by (auto simp: bindE_Inr_iff)
  from Cons.IH [OF rest] obtain fl where "out = (acc @ [l]) @ fl"
    "map flattenBuildStep steps = map Inr fl" by blast
  then have "out = acc @ (l # fl) \<and> map flattenBuildStep (s # steps) = map Inr (l # fl)"
    by (simp add: l)
  then show ?case by blast
qed


lemma flattenBuildStep_supported [simp]:
  "flattenBuildStep (StepPowershell p) = Inr (flattenBuildStepPowershell p)"
  "flattenBuildStep (StepCommandLine c) = Inr (flattenBuildStepCmdLine c)"
  by (simp_all add: flattenBuildStep_def lookupOrZero_def stepTypeMap_def
      StepTypePowershell_def StepTypeCommandLine_def)






lemma flattenLoop_no_config:
  "filter (\<lambda>p. paramType p = ptConfiguration) ps = [] \<Longrightarrow>
   fst (flattenParametersLoop ps (c, s, e)) = c"
  using kinds_distinct
  by (induction ps arbitrary: c s e) (simp_all split: if_splits)

lemma flattenLoop_no_sys:
  "filter (\<lambda>p. paramType p = ptSystem) ps = [] \<Longrightarrow>
   fst (snd (flattenParametersLoop ps (c, s, e))) = s"
  using kinds_distinct
  by (induction ps arbitrary: c s e) (simp_all split: if_splits)

lemma flattenLoop_no_env:
  "filter (\<lambda>p. paramType p = ptEnvironmentVariable) ps = [] \<Longrightarrow>
   snd (snd (flattenParametersLoop ps (c, s, e))) = e"
  using kinds_distinct
  by (induction ps arbitrary: c s e) (simp_all split: if_splits)




subsection \<open>Partial creation\<close>



subsection \<open>Read after Create\<close>






subsection \<open>Fields that Read does not write\<close>

text \<open>
  C10: on a Read of a Build Configuration that the remote system holds, the field vcs_root
  keeps its value when the remote entity has no VCS root entry, the field step keeps its
  value when it has no step, and the parameter map of a kind keeps its value when the entity
  has no parameter of that kind: the field is not written, and not cleared.
\<close>

theorem read_skips_empty_collections:
  assumes "buildTypes r (Id d) = Some bt"
  shows "(btVcsRootEntries bt = [] \<longrightarrow>
            vcs_root (dataOf (resourceBuildConfigurationRead d r)) = vcs_root d) \<and>
         (btSteps bt = [] \<longrightarrow>
            step (dataOf (resourceBuildConfigurationRead d r)) = step d) \<and>
         (filter (\<lambda>p. paramType p = ptEnvironmentVariable) (btParameters bt) = [] \<longrightarrow>
            env_params (dataOf (resourceBuildConfigurationRead d r)) = env_params d) \<and>
         (filter (\<lambda>p. paramType p = ptSystem) (btParameters bt) = [] \<longrightarrow>
            sys_params (dataOf (resourceBuildConfigurationRead d r)) = sys_params d) \<and>
         (filter (\<lambda>p. paramType p = ptConfiguration) (btParameters bt) = [] \<longrightarrow>
            config_params (dataOf (resourceBuildConfigurationRead d r)) = config_params d)"
proof -
  obtain res d' r' where R: "resourceBuildConfigurationRead d r = (res, d', r')"
    by (cases "resourceBuildConfigurationRead d r")
  have fields:
    "btVcsRootEntries bt = [] \<longrightarrow> vcs_root (readFields d bt) = vcs_root d"
    "step (readFields d bt) = step d"
    "filter (\<lambda>p. paramType p = ptEnvironmentVariable) (btParameters bt) = [] \<longrightarrow>
       env_params (readFields d bt) = env_params d"
    "filter (\<lambda>p. paramType p = ptSystem) (btParameters bt) = [] \<longrightarrow>
       sys_params (readFields d bt) = sys_params d"
    "filter (\<lambda>p. paramType p = ptConfiguration) (btParameters bt) = [] \<longrightarrow>
       config_params (readFields d bt) = config_params d"
    by (simp_all add: readFields_updates writeIf_def flattenParameters_def
        flattenLoop_no_env flattenLoop_no_sys flattenLoop_no_config)
  have "(btVcsRootEntries bt = [] \<longrightarrow> vcs_root d' = vcs_root d) \<and>
        (btSteps bt = [] \<longrightarrow> step d' = step d) \<and>
        (filter (\<lambda>p. paramType p = ptEnvironmentVariable) (btParameters bt) = [] \<longrightarrow>
           env_params d' = env_params d) \<and>
        (filter (\<lambda>p. paramType p = ptSystem) (btParameters bt) = [] \<longrightarrow>
           sys_params d' = sys_params d) \<and>
        (filter (\<lambda>p. paramType p = ptConfiguration) (btParameters bt) = [] \<longrightarrow>
           config_params d' = config_params d)"
    using R
  proof (cases rule: Read_cases)
    case (fetch_failed e)
    then show ?thesis by simp
  next
    case (steps_failed dt r1 e)
    with GetByID_result [OF steps_failed(1)] assms have "dt = bt" by simp
    with steps_failed fields show ?thesis by simp
  next
    case (no_steps dt r1)
    with GetByID_result [OF no_steps(1)] assms have "dt = bt" by simp
    with no_steps fields show ?thesis by simp
  next
    case (flatten_failed dt r1 steps e)
    with GetByID_result [OF flatten_failed(1)] assms have "dt = bt" by simp
    with flatten_failed fields show ?thesis by simp
  next
    case (steps_written dt r1 steps fl)
    from GetByID_result [OF steps_written(1)] assms have dt: "dt = bt"
      and b1: "buildTypes r1 = buildTypes r" by simp_all
    from GetSteps_result [OF steps_written(2)] assms b1 have "steps = btSteps bt" by auto
    with steps_written dt fields show ?thesis by simp
  qed
  with R show ?thesis by (simp add: dataOf_def)
qed

theorem read_skips_empty_collections_witness:
  "vcs_root (dataOf (resourceBuildConfigurationRead exStaleData exBareRemote)) = Some [exVcsA] \<and>
   step (dataOf (resourceBuildConfigurationRead exStaleData exBareRemote)) = Some [exStepOne] \<and>
   env_params (dataOf (resourceBuildConfigurationRead exStaleData exBareRemote)) = Some [(''A'', ''1'')] \<and>
   sys_params (dataOf (resourceBuildConfigurationRead exStaleData exBareRemote)) = None \<and>
   config_params (dataOf (resourceBuildConfigurationRead exStaleData exBareRemote)) = None"
proof -
  have b: "buildTypes exBareRemote (Id exStaleData) = Some exBareBuildType"
    by (simp add: exBareRemote_def exStaleData_def blankData_def emptyRemote_def)
  have empties: "btVcsRootEntries exBareBuildType = []" "btSteps exBareBuildType = []"
    "btParameters exBareBuildType = []"
    by (simp_all add: exBareBuildType_def)
  have old: "vcs_root exStaleData = Some [exVcsA]" "step exStaleData = Some [exStepOne]"
    "env_params exStaleData = Some [(''A'', ''1'')]" "sys_params exStaleData = None"
    "config_params exStaleData = None"
    by (simp_all add: exStaleData_def blankData_def)
  from read_skips_empty_collections [OF b] show ?thesis
    by (simp add: empties old)
qed

end
